theory Spec2Isabelle
  imports Complex_Main "HOL-Library.Log_Nat" "HOL-Library.Word"
begin

section \<open>JavaScript numbers\<close>

text \<open>
  Every number of \<^verbatim>\<open>App.js\<close> is an IEEE 754 binary64 value, and every arithmetic
  operator returns the exact result rounded to the nearest such value, ties to even.
  A number is modelled as the real it denotes, and each operator rounds its exact result
  with \<open>binary64\<close>. \<open>binade x\<close> is the exponent \<open>e\<close> with \<open>2^e \<le> x < 2^(e+1)\<close>,
  and a value of precision \<open>p\<close> in that binade is a multiple of \<open>2^(e - (p - 1))\<close>.

  The exponent range is not bounded in this model: overflow to \<open>Infinity\<close> and the
  subnormal numbers are absent, and so are \<open>NaN\<close> and the sign of zero. The quantities
  of the frame loop and of the GUI handlers stay far inside the normal range. The one
  place of the program where \<open>NaN\<close> can arise, the sampling function, has a result type
  of its own.
\<close>

definition binade :: "real \<Rightarrow> int" where
  "binade x = (if 1 \<le> x then bitlen \<lfloor>x\<rfloor> - 1 else - bitlen (\<lceil>1 / x\<rceil> - 1))"

definition round_half_even :: "real \<Rightarrow> int" where
  "round_half_even x =
     (let f = \<lfloor>x\<rfloor>; r = x - of_int f
      in if r < 1 / 2 then f else if 1 / 2 < r then f + 1 else if even f then f else f + 1)"

definition round_positive :: "nat \<Rightarrow> real \<Rightarrow> real" where
  "round_positive p x =
     (let u = 2 powi (binade x - (int p - 1)) in of_int (round_half_even (x / u)) * u)"

definition round_to :: "nat \<Rightarrow> real \<Rightarrow> real" where
  "round_to p x =
     (if x = 0 then 0 else if 0 < x then round_positive p x else - round_positive p (- x))"

definition binary64 :: "real \<Rightarrow> real" where
  "binary64 x = round_to 53 x"

text \<open>The element type of a \<^verbatim>\<open>Float32Array\<close>: 24 bits of precision.\<close>

definition binary32 :: "real \<Rightarrow> real" where
  "binary32 x = round_to 24 x"

definition js_add :: "real \<Rightarrow> real \<Rightarrow> real" where
  "js_add a b = binary64 (a + b)"

definition js_sub :: "real \<Rightarrow> real \<Rightarrow> real" where
  "js_sub a b = binary64 (a - b)"

definition js_mul :: "real \<Rightarrow> real \<Rightarrow> real" where
  "js_mul a b = binary64 (a * b)"

text \<open>
  Division is used by the program with a divisor that is not zero: the constant
  \<open>1000\<close> and \<open>8\<close>, and a controller value that its range \<open>0.1 .. 10\<close> keeps away from
  zero. (In HOL \<open>a / 0 = 0\<close>, in JavaScript it is an infinity or \<open>NaN\<close>; the division of the
  sampling function, whose divisor can be zero, is modelled apart.)
\<close>

definition js_div :: "real \<Rightarrow> real \<Rightarrow> real" where
  "js_div a b = binary64 (a / b)"

section \<open>The metadata and the input data\<close>

record 'a vector3 =
  vec_x :: 'a
  vec_y :: 'a
  vec_z :: 'a

record meta =
  time_count :: nat
  timestep :: real
  grid_size :: "nat vector3"
  grid_offset :: "real vector3"
  voxel_size :: "real vector3"
  value_scale :: real

definition sootVisibilityMeta :: meta where
  "sootVisibilityMeta =
     \<lparr> time_count = 151,
       timestep = binary64 (25 / 100),
       grid_size = \<lparr> vec_x = 50, vec_y = 50, vec_z = 50 \<rparr>,
       grid_offset = \<lparr> vec_x = - 1, vec_y = - 1, vec_z = - 1 \<rparr>,
       voxel_size = \<lparr> vec_x = binary64 (4 / 100), vec_y = binary64 (4 / 100),
                      vec_z = binary64 (4 / 100) \<rparr>,
       value_scale = js_div 1 8 \<rparr>"

text \<open>
  \<^verbatim>\<open>App._init\<close>: the promise chain fetches and decompresses the file; when it is
  fulfilled the bytes are scaled into a \<^verbatim>\<open>Float32Array\<close>, when any stage rejects
  \<^verbatim>\<open>visibilityData\<close> stays \<^verbatim>\<open>null\<close>. The \<^verbatim>\<open>finally\<close> callback runs in both
  cases. (A chain that never settles never runs it; that case is not modelled.)
\<close>

datatype fetched = Rejected | Decompressed "8 word list"

definition scaleBytes :: "meta \<Rightarrow> 8 word list \<Rightarrow> real list" where
  "scaleBytes m bytes = map (\<lambda>v. binary32 (js_mul (real (unat v)) (value_scale m))) bytes"

definition visibilityData_of :: "fetched \<Rightarrow> real list option" where
  "visibilityData_of r =
     (case r of Rejected \<Rightarrow> None | Decompressed bytes \<Rightarrow> Some (scaleBytes sootVisibilityMeta bytes))"

section \<open>The sampling function\<close>

text \<open>
  The index expression of the sampling function. Its operands are integers and every
  intermediate value is below \<open>2^53\<close> for the grid at hand (at most 18 875 000), so the
  arithmetic is exact and is written on the naturals. The last argument \<open>t\<close> is the index
  of the time sample: \<^verbatim>\<open>createAtlasTexture\<close> is given the number of time samples and
  no time step, and the expression uses \<open>t\<close> as an index.
\<close>

definition sampleIndex :: "meta \<Rightarrow> nat \<Rightarrow> nat \<Rightarrow> nat \<Rightarrow> nat \<Rightarrow> nat" where
  "sampleIndex m xi yi zi t =
     yi +
     zi * vec_y (grid_size m) +
     xi * vec_y (grid_size m) * vec_z (grid_size m) +
     t * vec_x (grid_size m) * vec_y (grid_size m) * vec_z (grid_size m)"

text \<open>
  The result of the sampling function is a JavaScript number that can be special: a read
  past the end of the typed array is \<^verbatim>\<open>undefined\<close>, which the division turns into
  \<open>NaN\<close>, and the divisor \<open>max\<close> is zero when all the data is.
\<close>

datatype jsnumber = Number real | PosInfinity | NegInfinity | NaN

definition array_get :: "real list \<Rightarrow> nat \<Rightarrow> real option" where
  "array_get a i = (if i < length a then Some (a ! i) else None)"

definition sample_div :: "real option \<Rightarrow> real \<Rightarrow> jsnumber" where
  "sample_div v mx =
     (case v of
        None \<Rightarrow> NaN
      | Some a \<Rightarrow>
          if mx = 0 then (if a = 0 then NaN else if 0 < a then PosInfinity else NegInfinity)
          else Number (js_div a mx))"

definition sample_add :: "jsnumber \<Rightarrow> real \<Rightarrow> jsnumber" where
  "sample_add v b = (case v of Number a \<Rightarrow> Number (js_add a b) | w \<Rightarrow> w)"

definition sampleFn ::
  "real list \<Rightarrow> real \<Rightarrow> nat \<Rightarrow> nat \<Rightarrow> nat \<Rightarrow> real \<Rightarrow> real \<Rightarrow> real \<Rightarrow> nat \<Rightarrow> jsnumber" where
  "sampleFn visibilityData mx xi yi zi x y z t =
     (let index = sampleIndex sootVisibilityMeta xi yi zi t
      in sample_add (sample_div (array_get visibilityData index) mx) (binary64 (3 / 10)))"

text \<open>
  \<^verbatim>\<open>visibilityData.reduce((a, x) => a > x ? a : x)\<close>: without an initial value,
  \<^verbatim>\<open>reduce\<close> starts from the first element and throws a \<^verbatim>\<open>TypeError\<close> on an empty
  array.
\<close>

datatype exception = TypeError

definition reduce_max :: "real list \<Rightarrow> exception + real" where
  "reduce_max a =
     (case a of [] \<Rightarrow> Inl TypeError | v # vs \<Rightarrow> Inr (foldl (\<lambda>a x. if a > x then a else x) v vs))"

text \<open>
  The flat index of the specification, section 3: \<open>y\<close> fastest, then \<open>z\<close>, then \<open>x\<close>, then
  \<open>t\<close>, for grid dimensions \<open>gx\<close>, \<open>gy\<close>, \<open>gz\<close>.
\<close>

definition flat_index :: "nat \<Rightarrow> nat \<Rightarrow> nat \<Rightarrow> nat \<times> nat \<times> nat \<times> nat \<Rightarrow> nat" where
  "flat_index gx gy gz = (\<lambda>(x, y, z, t). y + z * gy + x * gy * gz + t * gx * gy * gz)"

section \<open>The application state\<close>

record options =
  distance :: real
  extinctionCoefficient :: real
  normalEpsilon :: real
  useVolumetricDepthTest :: bool
  useExtinctionCoefficient :: bool
  useValueAsExtinctionCoefficient :: bool
  usePointLights :: bool
  useDirectionalLights :: bool
  useRandomStart :: bool
  renderMeanValue :: bool
  invertNormals :: bool
  renderNormals :: bool
  raySteps :: nat
  functionPreset :: string
  useCustomFunction :: bool
  customFunction :: "string option"

text \<open>
  The uniforms of the volume renderer that \<^verbatim>\<open>App.js\<close> reads or writes as numbers. The
  store itself is created by \<^verbatim>\<open>VolumeRenderer.js\<close>, which is not among the sources, so
  its initial values are a parameter of the constructor below.
\<close>

datatype uniform =
    U_time | U_random | U_extinctionCoefficient
  | U_minPaletteValue | U_maxPaletteValue | U_minCutoffValue | U_maxCutoffValue
  | U_cutoffFadeRange | U_valueMultiplier | U_extinctionMultiplier | U_alphaMultiplier
  | U_normalEpsilon

text \<open>\<open>Screen\<close> is the default framebuffer, \<^verbatim>\<open>setRenderTarget(null)\<close>.\<close>

datatype target = DepthTarget | Screen

record app =
  options :: options
  glslTextarea :: string
  spinningCube_visible :: bool
  spinningCube_rotation_x :: real
  spinningCube_rotation_y :: real
  pointLight_visible :: bool
  lastTime :: "real option"
  timescale :: real
  uniforms :: "uniform \<Rightarrow> real"
  currentRenderTarget :: target

text \<open>
  The calls the application makes on the volume renderer (\<^verbatim>\<open>createAtlasTexture\<close>,
  \<^verbatim>\<open>updateAtlasTexture\<close>, \<^verbatim>\<open>updateMaterial\<close>), on the WebGL renderer
  (\<^verbatim>\<open>setAnimationLoop\<close>, \<^verbatim>\<open>setRenderTarget\<close>, \<^verbatim>\<open>render\<close>) and on the orbit
  controls (\<^verbatim>\<open>update\<close>), in the order they are made. Scene construction, the skybox
  and palette textures, the position of the point light and window sizing are left out.
\<close>

datatype call =
    CreateAtlasTexture "nat vector3" "real vector3" "real vector3" nat
  | UpdateAtlasTexture "nat \<Rightarrow> nat \<Rightarrow> nat \<Rightarrow> real \<Rightarrow> real \<Rightarrow> real \<Rightarrow> nat \<Rightarrow> jsnumber"
  | UpdateMaterial options
  | SetAnimationLoop
  | ControlsUpdate real
  | SetRenderTarget target
  | Render

fun is_atlas_call :: "call \<Rightarrow> bool" where
  "is_atlas_call (CreateAtlasTexture _ _ _ _) = True"
| "is_atlas_call (UpdateAtlasTexture _) = True"
| "is_atlas_call _ = False"

text \<open>
  The framebuffers that a sequence of calls renders into, in order, when the renderer's
  target is \<open>cur\<close> at the start.
\<close>

fun render_targets :: "target \<Rightarrow> call list \<Rightarrow> target list" where
  "render_targets cur [] = []"
| "render_targets cur (SetRenderTarget t # cs) = render_targets t cs"
| "render_targets cur (Render # cs) = cur # render_targets cur cs"
| "render_targets cur (_ # cs) = render_targets cur cs"

section \<open>The constructor\<close>

definition pulsingSphere :: string where
  "pulsingSphere =
     ''vec3 p = vec3(x, y, z) - vec3(1.0);\<newline>return length(p) + 0.1 * sin(t);''"

definition initial_options :: options where
  "initial_options =
     \<lparr> distance = 1,
       extinctionCoefficient = 1,
       normalEpsilon = binary64 (1 / 100),
       useVolumetricDepthTest = False,
       useExtinctionCoefficient = True,
       useValueAsExtinctionCoefficient = False,
       usePointLights = False,
       useDirectionalLights = False,
       useRandomStart = True,
       renderMeanValue = False,
       invertNormals = False,
       renderNormals = False,
       raySteps = 64,
       functionPreset = ''Pulsing Sphere'',
       useCustomFunction = False,
       customFunction = None \<rparr>"

definition initial_app :: "(uniform \<Rightarrow> real) \<Rightarrow> app" where
  "initial_app u0 =
     \<lparr> options = initial_options,
       glslTextarea = pulsingSphere,
       spinningCube_visible = False,
       spinningCube_rotation_x = 0,
       spinningCube_rotation_y = 0,
       pointLight_visible = False,
       lastTime = None,
       timescale = 1,
       uniforms = u0,
       currentRenderTarget = Screen \<rparr>"

text \<open>
  The constructor returns the calls it made and either the exception that ended it or the
  application it built. With data, \<^verbatim>\<open>createAtlasTexture\<close> is called before
  \<^verbatim>\<open>reduce\<close> can throw.
\<close>

definition App_new :: "(uniform \<Rightarrow> real) \<Rightarrow> real list option \<Rightarrow> call list \<times> (exception + app)" where
  "App_new u0 visibilityData =
     (case visibilityData of
        None \<Rightarrow> ([SetAnimationLoop], Inr (initial_app u0))
      | Some vd \<Rightarrow>
          (let create = CreateAtlasTexture (grid_size sootVisibilityMeta)
                 (grid_offset sootVisibilityMeta) (voxel_size sootVisibilityMeta)
                 (time_count sootVisibilityMeta)
           in case reduce_max vd of
                Inl e \<Rightarrow> ([create], Inl e)
              | Inr mx \<Rightarrow>
                  ([create, UpdateAtlasTexture (sampleFn vd mx), SetAnimationLoop],
                   Inr (initial_app u0))))"

definition App_init :: "(uniform \<Rightarrow> real) \<Rightarrow> fetched \<Rightarrow> call list \<times> (exception + app)" where
  "App_init u0 r = App_new u0 (visibilityData_of r)"

section \<open>The frame loop\<close>

definition deltaTime :: "real option \<Rightarrow> real \<Rightarrow> real" where
  "deltaTime lastT time =
     min 1 (max (binary64 (1 / 10 ^ 6))
       (case lastT of None \<Rightarrow> 0 | Some l \<Rightarrow> js_div (js_sub time l) 1000))"

text \<open>\<open>rnd\<close> is the value that \<^verbatim>\<open>Math.random()\<close> returns in this frame.\<close>

definition update :: "real \<Rightarrow> real \<Rightarrow> app \<Rightarrow> app \<times> call list" where
  "update time rnd s =
     (let dt = deltaTime (lastTime s) time;
          s1 = s\<lparr> lastTime := Some time \<rparr>;
          s2 = s1\<lparr> uniforms := (uniforms s1)
                  (U_time := js_add (uniforms s1 U_time) (js_mul dt (timescale s1)),
                   U_random := rnd) \<rparr>;
          s3 = (if spinningCube_visible s2
                then s2\<lparr> spinningCube_rotation_x :=
                           js_add (spinningCube_rotation_x s2) (js_mul dt (binary64 (2 / 10))),
                         spinningCube_rotation_y :=
                           js_add (spinningCube_rotation_y s2) (js_mul dt (binary64 (1 / 10))) \<rparr>
                else s2)
      in (s3\<lparr> currentRenderTarget := Screen \<rparr>,
          [ControlsUpdate dt] @
          (if spinningCube_visible s2 then [SetRenderTarget DepthTarget, Render] else []) @
          [SetRenderTarget Screen, Render]))"

section \<open>The GUI handlers\<close>

text \<open>
  A lil-gui controller stores the new value in the field it is bound to and then calls the
  \<^verbatim>\<open>onChange\<close> handler with it; each function below does both.
\<close>

definition on_timescale :: "real \<Rightarrow> app \<Rightarrow> app \<times> call list" where
  "on_timescale v s = (s\<lparr> timescale := v \<rparr>, [])"

text \<open>
  \<open>v\<close> is the preset's text after \<^verbatim>\<open>trim()\<close>, \<^verbatim>\<open>functionPresets[name].trim()\<close>.
\<close>

definition on_functionPreset :: "string \<Rightarrow> string \<Rightarrow> app \<Rightarrow> app \<times> call list" where
  "on_functionPreset name v s =
     (let opts = (options s)\<lparr> functionPreset := name, customFunction := Some v,
                                useCustomFunction := True \<rparr>
      in (s\<lparr> glslTextarea := v, options := opts \<rparr>, [UpdateMaterial opts]))"

text \<open>The \<^verbatim>\<open>input\<close> event of the text area, which then holds \<open>text\<close>.\<close>

definition on_textarea_input :: "string \<Rightarrow> app \<Rightarrow> app \<times> call list" where
  "on_textarea_input text s =
     (let s1 = s\<lparr> glslTextarea := text \<rparr>
      in if useCustomFunction (options s1)
         then (let opts = (options s1)\<lparr> customFunction := None, useCustomFunction := False \<rparr>
               in (s1\<lparr> options := opts \<rparr>, [UpdateMaterial opts]))
         else (s1, []))"

definition on_useCustomFunction :: "bool \<Rightarrow> app \<Rightarrow> app \<times> call list" where
  "on_useCustomFunction v s =
     (let o1 = (options s)\<lparr> useCustomFunction := v \<rparr>;
          opts = (if v then o1\<lparr> customFunction := Some (glslTextarea s) \<rparr>
                  else o1\<lparr> customFunction := None \<rparr>)
      in (s\<lparr> options := opts \<rparr>, [UpdateMaterial opts]))"

definition on_uniform :: "uniform \<Rightarrow> real \<Rightarrow> app \<Rightarrow> app \<times> call list" where
  "on_uniform u v s = (s\<lparr> uniforms := (uniforms s)(u := v) \<rparr>, [])"

definition on_extinctionCoefficient :: "real \<Rightarrow> app \<Rightarrow> app \<times> call list" where
  "on_extinctionCoefficient v s =
     (let o1 = (options s)\<lparr> extinctionCoefficient := v \<rparr>;
          opts = o1\<lparr> distance := js_div (binary64 (3912 / 1000)) v \<rparr>
      in (s\<lparr> options := opts, uniforms := (uniforms s)(U_extinctionCoefficient := v) \<rparr>, []))"

definition on_distance :: "real \<Rightarrow> app \<Rightarrow> app \<times> call list" where
  "on_distance v s =
     (let o1 = (options s)\<lparr> distance := v \<rparr>;
          opts = o1\<lparr> extinctionCoefficient := js_div (binary64 (3912 / 1000)) v \<rparr>
      in (s\<lparr> options := opts,
             uniforms := (uniforms s)
               (U_extinctionCoefficient := js_div (binary64 (3912 / 1000)) v) \<rparr>, []))"

definition on_useVolumetricDepthTest :: "bool \<Rightarrow> app \<Rightarrow> app \<times> call list" where
  "on_useVolumetricDepthTest v s =
     (let opts = (options s)\<lparr> useVolumetricDepthTest := v \<rparr>
      in (s\<lparr> options := opts, spinningCube_visible := v \<rparr>, [UpdateMaterial opts]))"

definition on_usePointLights :: "bool \<Rightarrow> app \<Rightarrow> app \<times> call list" where
  "on_usePointLights v s =
     (let opts = (options s)\<lparr> usePointLights := v \<rparr>
      in (s\<lparr> options := opts, pointLight_visible := v \<rparr>, [UpdateMaterial opts]))"

text \<open>The shader options whose handler only calls \<^verbatim>\<open>updateMaterial\<close>.\<close>

datatype flag =
    RenderMeanValue | UseExtinctionCoefficient | UseValueAsExtinctionCoefficient
  | UseDirectionalLights | UseRandomStart | InvertNormals | RenderNormals

fun set_flag :: "flag \<Rightarrow> bool \<Rightarrow> options \<Rightarrow> options" where
  "set_flag RenderMeanValue v opts = opts\<lparr> renderMeanValue := v \<rparr>"
| "set_flag UseExtinctionCoefficient v opts = opts\<lparr> useExtinctionCoefficient := v \<rparr>"
| "set_flag UseValueAsExtinctionCoefficient v opts = opts\<lparr> useValueAsExtinctionCoefficient := v \<rparr>"
| "set_flag UseDirectionalLights v opts = opts\<lparr> useDirectionalLights := v \<rparr>"
| "set_flag UseRandomStart v opts = opts\<lparr> useRandomStart := v \<rparr>"
| "set_flag InvertNormals v opts = opts\<lparr> invertNormals := v \<rparr>"
| "set_flag RenderNormals v opts = opts\<lparr> renderNormals := v \<rparr>"

definition on_flag :: "flag \<Rightarrow> bool \<Rightarrow> app \<Rightarrow> app \<times> call list" where
  "on_flag f v s =
     (let opts = set_flag f v (options s) in (s\<lparr> options := opts \<rparr>, [UpdateMaterial opts]))"

definition on_raySteps :: "nat \<Rightarrow> app \<Rightarrow> app \<times> call list" where
  "on_raySteps n s =
     (let opts = (options s)\<lparr> raySteps := n \<rparr> in (s\<lparr> options := opts \<rparr>, [UpdateMaterial opts]))"

section \<open>Runs of the application\<close>

datatype event =
    Frame real real
  | TimeScale real
  | FunctionPreset string string
  | TextareaInput string
  | UseCustomFunction bool
  | UniformValue uniform real
  | ExtinctionCoefficient real
  | Distance real
  | DepthTest bool
  | PointLights bool
  | ShaderFlag flag bool
  | RaySteps nat

fun handle :: "event \<Rightarrow> app \<Rightarrow> app \<times> call list" where
  "handle (Frame time rnd) s = update time rnd s"
| "handle (TimeScale v) s = on_timescale v s"
| "handle (FunctionPreset name v) s = on_functionPreset name v s"
| "handle (TextareaInput text) s = on_textarea_input text s"
| "handle (UseCustomFunction v) s = on_useCustomFunction v s"
| "handle (UniformValue u v) s = on_uniform u v s"
| "handle (ExtinctionCoefficient v) s = on_extinctionCoefficient v s"
| "handle (Distance v) s = on_distance v s"
| "handle (DepthTest v) s = on_useVolumetricDepthTest v s"
| "handle (PointLights v) s = on_usePointLights v s"
| "handle (ShaderFlag f v) s = on_flag f v s"
| "handle (RaySteps n) s = on_raySteps n s"

fun run :: "event list \<Rightarrow> app \<Rightarrow> app" where
  "run [] s = s"
| "run (e # es) s = run es (fst (handle e s))"

text \<open>
  The ranges that the GUI gives its number controllers (\<^verbatim>\<open>gui.add(object, property, min,
  max, step)\<close>): lil-gui clamps what the user enters to \<open>[min, max]\<close> before it stores the
  value and calls the handler. Only the uniforms below are bound to a controller.
\<close>

fun uniform_range :: "uniform \<Rightarrow> (real \<times> real) option" where
  "uniform_range U_minPaletteValue = Some (0, 3)"
| "uniform_range U_maxPaletteValue = Some (0, 3)"
| "uniform_range U_minCutoffValue = Some (0, 3)"
| "uniform_range U_maxCutoffValue = Some (0, 3)"
| "uniform_range U_cutoffFadeRange = Some (0, 1)"
| "uniform_range U_valueMultiplier = Some (0, 4)"
| "uniform_range U_extinctionMultiplier = Some (0, 10)"
| "uniform_range U_alphaMultiplier = Some (0, 4)"
| "uniform_range U_normalEpsilon = Some (binary64 (1 / 1000), binary64 (1 / 10))"
| "uniform_range _ = None"

fun gui_ok :: "event \<Rightarrow> bool" where
  "gui_ok (TimeScale v) = (0 \<le> v \<and> v \<le> 8)"
| "gui_ok (UniformValue u v) =
     (case uniform_range u of None \<Rightarrow> False | Some (lo, hi) \<Rightarrow> lo \<le> v \<and> v \<le> hi)"
| "gui_ok (ExtinctionCoefficient v) = (binary64 (1 / 10) \<le> v \<and> v \<le> 10)"
| "gui_ok (Distance v) = (binary64 (1 / 10) \<le> v \<and> v \<le> 10)"
| "gui_ok (RaySteps n) = (2 \<le> n \<and> n \<le> 256)"
| "gui_ok _ = True"

section \<open>Auxiliary notions\<close>

text \<open>The spacing of the precision-\<open>p\<close> values in the binade of \<open>x\<close>.\<close>

definition ulp :: "nat \<Rightarrow> real \<Rightarrow> real" where
  "ulp p x = 2 powi (binade x - (int p - 1))"

text \<open>
  \<open>clamp(v, lo, hi)\<close> as the specification uses it: \<open>v\<close> limited to the interval
  \<open>[lo, hi]\<close>.
\<close>

definition clamp :: "real \<Rightarrow> real \<Rightarrow> real \<Rightarrow> real" where
  "clamp v lo hi = (if v < lo then lo else if hi < v then hi else v)"

text \<open>The index tuple of a flat index: the inverse of \<open>sampleIndex\<close>.\<close>

definition index_tuple :: "meta \<Rightarrow> nat \<Rightarrow> nat \<times> nat \<times> nat \<times> nat" where
  "index_tuple m i =
     (let gx = vec_x (grid_size m); gy = vec_y (grid_size m); gz = vec_z (grid_size m)
      in ((i div gy div gz) mod gx, i mod gy, (i div gy) mod gz, i div gy div gz div gx))"

text \<open>
  The round trip of the two linked controllers: the handler of the extinction coefficient
  is given \<open>c\<close> and stores the visible range, and the handler of the visible range is then
  given the range that was stored.
\<close>

definition coefficient_round_trip :: "real \<Rightarrow> app \<Rightarrow> app" where
  "coefficient_round_trip c s =
     (let s1 = fst (on_extinctionCoefficient c s) in fst (on_distance (distance (options s1)) s1))"

text \<open>A uniform store whose values are all zero, for concrete runs.\<close>

definition zero_uniforms :: "uniform \<Rightarrow> real" where
  "zero_uniforms u = 0"

text \<open>The invariants of the runs.\<close>

definition custom_inv :: "options \<Rightarrow> bool" where
  "custom_inv opts \<longleftrightarrow> (useCustomFunction opts \<longleftrightarrow> customFunction opts \<noteq> None)"

definition depth_inv :: "app \<Rightarrow> bool" where
  "depth_inv s \<longleftrightarrow>
     spinningCube_visible s = useVolumetricDepthTest (options s) \<and> currentRenderTarget s = Screen"

definition time_inv :: "app \<Rightarrow> bool" where
  "time_inv s \<longleftrightarrow> binary64 (uniforms s U_time) = uniforms s U_time \<and> 0 \<le> timescale s"

text \<open>The timestamp of the last frame of a run, if the run has a frame.\<close>

fun last_frame :: "event list \<Rightarrow> real option" where
  "last_frame [] = None"
| "last_frame (Frame time rnd # es) = (case last_frame es of None \<Rightarrow> Some time | Some t \<Rightarrow> Some t)"
| "last_frame (_ # es) = last_frame es"


section \<open>Rounding to nearest\<close>

lemma binade_ge1:
  assumes "1 \<le> x"
  shows "2 powi binade x \<le> x \<and> x < 2 powi (binade x + 1)"
proof -
  define n where "n = \<lfloor>x\<rfloor>"
  have n: "0 < n" unfolding n_def using assms by linarith
  have b1: "1 \<le> bitlen n" using n by (simp add: bitlen_alt_def)
  from bitlen_bounds[OF n]
  have lo: "2 ^ nat (bitlen n - 1) \<le> n" and hi: "n < 2 ^ nat (bitlen n)" by auto
  have e: "binade x = bitlen n - 1" using assms by (simp add: binade_def n_def)
  have "(2::real) powi (bitlen n - 1) = 2 ^ nat (bitlen n - 1)"
    using b1 by (simp add: power_int_def)
  also have "\<dots> = of_int (2 ^ nat (bitlen n - 1))" by simp
  also have "\<dots> \<le> of_int n" using lo by (simp only: of_int_le_iff)
  also have "\<dots> \<le> x" unfolding n_def by linarith
  finally have A: "2 powi binade x \<le> x" unfolding e .
  have "x < of_int (n + 1)" unfolding n_def by linarith
  also have "\<dots> \<le> of_int (2 ^ nat (bitlen n))" using hi by (simp only: of_int_le_iff)
  also have "\<dots> = (2::real) powi (bitlen n)" using b1 by (simp add: power_int_def)
  finally have B: "x < 2 powi (binade x + 1)" unfolding e by simp
  show ?thesis using A B by simp
qed

lemma binade_lt1:
  assumes "0 < x" and "\<not> 1 \<le> x"
  shows "2 powi binade x \<le> x \<and> x < 2 powi (binade x + 1)"
proof -
  define y where "y = 1 / x"
  have y: "1 < y" using assms by (simp add: y_def)
  define M where "M = \<lceil>y\<rceil> - 1"
  have M: "0 < M" unfolding M_def using y by linarith
  have b1: "1 \<le> bitlen M" using M by (simp add: bitlen_alt_def)
  from bitlen_bounds[OF M]
  have lo: "2 ^ nat (bitlen M - 1) \<le> M" and hi: "M < 2 ^ nat (bitlen M)" by auto
  have e: "binade x = - bitlen M" using assms(2) by (simp add: binade_def M_def y_def)
  have "y \<le> of_int (M + 1)" unfolding M_def by linarith
  also have "\<dots> \<le> of_int (2 ^ nat (bitlen M))" using hi by (simp only: of_int_le_iff)
  also have "\<dots> = (2::real) ^ nat (bitlen M)" by simp
  finally have y_le: "y \<le> 2 ^ nat (bitlen M)" .
  have "(2::real) ^ nat (bitlen M - 1) = of_int (2 ^ nat (bitlen M - 1))" by simp
  also have "\<dots> \<le> of_int M" using lo by (simp only: of_int_le_iff)
  also have "\<dots> < y" unfolding M_def using y by linarith
  finally have y_gt: "2 ^ nat (bitlen M - 1) < y" .
  have xy: "x = 1 / y" using assms by (simp add: y_def)
  have A: "2 powi binade x \<le> x"
  proof -
    have "2 powi (- bitlen M) = 1 / (2::real) ^ nat (bitlen M)"
      using b1 by (simp add: power_int_def field_simps)
    also have "\<dots> \<le> 1 / y" using y_le y by (intro divide_left_mono) auto
    also have "\<dots> = x" using xy by simp
    finally show ?thesis unfolding e .
  qed
  have B: "x < 2 powi (binade x + 1)"
  proof -
    have "x = 1 / y" by (rule xy)
    also have "1 / y < 1 / (2::real) ^ nat (bitlen M - 1)"
      using y_gt y by (intro divide_strict_left_mono) auto
    also have "\<dots> = 2 powi (- bitlen M + 1)"
      using b1 by (simp add: power_int_def field_simps nat_diff_distrib)
    finally show ?thesis unfolding e .
  qed
  show ?thesis using A B by simp
qed

lemma binade_bounds:
  assumes "0 < x"
  shows "2 powi binade x \<le> x" and "x < 2 powi (binade x + 1)"
  using binade_ge1[of x] binade_lt1[of x] assms by blast+

lemma binade_unique:
  assumes "0 < x" and "2 powi e \<le> x" and "x < 2 powi (e + 1)"
  shows "binade x = e"
proof -
  have "(2::real) powi binade x < 2 powi (e + 1)"
    using binade_bounds(1)[OF assms(1)] assms(3) by linarith
  then have 1: "binade x < e + 1"
    using power_int_increasing[of "e + 1" "binade x" "2::real"] by (cases "binade x < e + 1") auto
  have "(2::real) powi e < 2 powi (binade x + 1)"
    using binade_bounds(2)[OF assms(1)] assms(2) by linarith
  then have 2: "e < binade x + 1"
    using power_int_increasing[of "binade x + 1" e "2::real"] by (cases "e < binade x + 1") auto
  from 1 2 show ?thesis by simp
qed

lemma round_half_even_ge_floor: "\<lfloor>x\<rfloor> \<le> round_half_even x"
  by (simp add: round_half_even_def Let_def)

lemma round_half_even_le_ceiling: "round_half_even x \<le> \<lceil>x\<rceil>"
proof -
  have "\<lfloor>x\<rfloor> + 1 \<le> \<lceil>x\<rceil>" if "0 < x - of_int \<lfloor>x\<rfloor>"
    using that by linarith
  moreover have "\<lfloor>x\<rfloor> \<le> \<lceil>x\<rceil>" by linarith
  ultimately show ?thesis
    by (auto simp add: round_half_even_def Let_def)
qed

lemma round_half_even_error: "\<bar>of_int (round_half_even x) - x\<bar> \<le> 1 / 2"
proof -
  define r where "r = x - of_int \<lfloor>x\<rfloor>"
  have r: "0 \<le> r" "r < 1" unfolding r_def by linarith+
  have x: "x = of_int \<lfloor>x\<rfloor> + r" by (simp add: r_def)
  consider "r < 1 / 2" | "1 / 2 < r" | "r = 1 / 2" by linarith
  then show ?thesis
  proof cases
    case 1
    then have "round_half_even x = \<lfloor>x\<rfloor>"
      by (simp add: round_half_even_def Let_def r_def)
    then show ?thesis using r 1 x by linarith
  next
    case 2
    then have "round_half_even x = \<lfloor>x\<rfloor> + 1"
      by (simp add: round_half_even_def Let_def r_def)
    then have "of_int (round_half_even x) - x = 1 - r" using x by simp
    then show ?thesis using r 2 by linarith
  next
    case 3
    then have "round_half_even x = \<lfloor>x\<rfloor> \<or> round_half_even x = \<lfloor>x\<rfloor> + 1"
      by (simp add: round_half_even_def Let_def r_def)
    then have "of_int (round_half_even x) - x = - r \<or> of_int (round_half_even x) - x = 1 - r"
      using x by auto
    then show ?thesis using 3 by auto
  qed
qed

lemma round_half_even_of_int [simp]: "round_half_even (of_int n) = n"
  by (simp add: round_half_even_def)

lemma ulp_pos: "0 < ulp p x"
  by (simp add: ulp_def)

lemma round_positive_ulp: "round_positive p x = of_int (round_half_even (x / ulp p x)) * ulp p x"
  by (simp add: round_positive_def ulp_def Let_def)

lemma ulp_binade:
  "2 ^ (p - 1) * ulp p x = 2 powi binade x" if "1 \<le> p"
proof -
  have "(2::real) ^ (p - 1) = 2 powi (int p - 1)"
    using that by (simp add: power_int_def nat_diff_distrib)
  then have "2 ^ (p - 1) * ulp p x = 2 powi (int p - 1) * 2 powi (binade x - (int p - 1))"
    by (simp add: ulp_def)
  also have "\<dots> = 2 powi ((int p - 1) + (binade x - (int p - 1)))"
    by (subst power_int_add) auto
  finally show ?thesis by simp
qed

lemma ulp_binade_next:
  "2 ^ p * ulp p x = 2 powi (binade x + 1)"
proof -
  have "(2::real) ^ p = 2 powi (int p)" by simp
  then have "2 ^ p * ulp p x = 2 powi (int p) * 2 powi (binade x - (int p - 1))"
    by (simp only: ulp_def)
  also have "\<dots> = 2 powi (int p + (binade x - (int p - 1)))"
    by (subst power_int_add) auto
  finally show ?thesis by (simp add: algebra_simps)
qed

lemma scaled_bounds:
  assumes "0 < x" and "1 \<le> p"
  shows "2 ^ (p - 1) \<le> x / ulp p x" and "x / ulp p x < 2 ^ p"
proof -
  have "2 ^ (p - 1) * ulp p x \<le> x"
    using binade_bounds(1)[OF assms(1)] ulp_binade[OF assms(2), of x] by simp
  then show "2 ^ (p - 1) \<le> x / ulp p x"
    using ulp_pos[of p x] by (simp add: pos_le_divide_eq)
  have "x < 2 ^ p * ulp p x"
    using binade_bounds(2)[OF assms(1)] ulp_binade_next[of p x] by simp
  then show "x / ulp p x < 2 ^ p"
    using ulp_pos[of p x] by (simp add: pos_divide_less_eq)
qed

lemma mantissa_bounds:
  assumes "0 < x" and "1 \<le> p"
  shows "2 ^ (p - 1) \<le> round_half_even (x / ulp p x)" and "round_half_even (x / ulp p x) \<le> 2 ^ p"
proof -
  have "(2::int) ^ (p - 1) \<le> \<lfloor>x / ulp p x\<rfloor>"
    using scaled_bounds(1)[OF assms] by (simp add: le_floor_iff)
  then show "2 ^ (p - 1) \<le> round_half_even (x / ulp p x)"
    using round_half_even_ge_floor[of "x / ulp p x"] by linarith
  have "\<lceil>x / ulp p x\<rceil> \<le> (2::int) ^ p"
    using scaled_bounds(2)[OF assms] by (simp add: ceiling_le_iff)
  then show "round_half_even (x / ulp p x) \<le> 2 ^ p"
    using round_half_even_le_ceiling[of "x / ulp p x"] by linarith
qed

lemma round_positive_bounds:
  assumes "0 < x" and "1 \<le> p"
  shows "2 powi binade x \<le> round_positive p x" and "round_positive p x \<le> 2 powi (binade x + 1)"
proof -
  let ?n = "round_half_even (x / ulp p x)"
  have "real_of_int (2 ^ (p - 1)) \<le> of_int ?n"
    using mantissa_bounds(1)[OF assms] by (simp only: of_int_le_iff)
  then have "2 ^ (p - 1) * ulp p x \<le> of_int ?n * ulp p x"
    using ulp_pos[of p x] by (intro mult_right_mono) auto
  then show "2 powi binade x \<le> round_positive p x"
    unfolding round_positive_ulp ulp_binade[OF assms(2)] .
  have "real_of_int ?n \<le> of_int (2 ^ p)"
    using mantissa_bounds(2)[OF assms] by (simp only: of_int_le_iff)
  then have "of_int ?n * ulp p x \<le> 2 ^ p * ulp p x"
    using ulp_pos[of p x] by (intro mult_right_mono) auto
  then show "round_positive p x \<le> 2 powi (binade x + 1)"
    unfolding round_positive_ulp ulp_binade_next .
qed

lemma round_positive_error:
  assumes "0 < x" and "1 \<le> p"
  shows "\<bar>round_positive p x - x\<bar> \<le> x / 2 ^ p"
proof -
  let ?u = "ulp p x"
  have "round_positive p x - x = (of_int (round_half_even (x / ?u)) - x / ?u) * ?u"
    using ulp_pos[of p x] by (simp add: round_positive_ulp algebra_simps)
  then have "\<bar>round_positive p x - x\<bar> = \<bar>of_int (round_half_even (x / ?u)) - x / ?u\<bar> * ?u"
    using ulp_pos[of p x] by (simp add: abs_mult)
  also have "\<dots> \<le> 1 / 2 * ?u"
    using round_half_even_error[of "x / ?u"] ulp_pos[of p x] by (intro mult_right_mono) auto
  also have "\<dots> = (2 ^ (p - 1) * ?u) / 2 ^ p"
  proof -
    have "(2::real) ^ p = 2 * 2 ^ (p - 1)" using assms(2) by (cases p) auto
    then show ?thesis by simp
  qed
  also have "\<dots> \<le> x / 2 ^ p"
    using binade_bounds(1)[OF assms(1)] ulp_binade[OF assms(2), of x]
    by (intro divide_right_mono) auto
  finally show ?thesis .
qed

lemma round_positive_exact:
  assumes m: "0 < m" "m < 2 ^ p" and x: "x = of_int m * 2 powi k"
  shows "round_positive p x = x"
proof -
  have xpos: "0 < x" using m x by simp
  have "2 powi binade x \<le> x" by (rule binade_bounds(1)[OF xpos])
  also have "x < 2 ^ p * 2 powi k"
  proof -
    have "real_of_int m < of_int (2 ^ p)" using m(2) by (simp only: of_int_less_iff)
    then show ?thesis unfolding x by (intro mult_strict_right_mono) auto
  qed
  also have "\<dots> = 2 powi (int p + k)"
    by (subst power_int_add) auto
  finally have "(2::real) powi binade x < 2 powi (int p + k)" .
  then have "binade x < int p + k"
    using power_int_increasing[of "int p + k" "binade x" "2::real"]
    by (cases "binade x < int p + k") auto
  then have d: "0 \<le> k - (binade x - (int p - 1))" by simp
  define j where "j = nat (k - (binade x - (int p - 1)))"
  define U where "U = ulp p x"
  have U: "0 < U" by (simp add: U_def ulp_pos)
  have "2 powi k = 2 powi (k - (binade x - (int p - 1))) * U"
    unfolding U_def ulp_def by (subst power_int_add[symmetric]) auto
  also have "2 powi (k - (binade x - (int p - 1))) = (2::real) ^ j"
    using d by (simp add: power_int_def j_def)
  finally have k: "2 powi k = 2 ^ j * U" .
  have xU: "x = of_int (m * 2 ^ j) * U"
    unfolding x k by simp
  then have q: "x / U = of_int (m * 2 ^ j)"
    using U by simp
  have "round_half_even (x / U) = m * 2 ^ j"
    unfolding q by (rule round_half_even_of_int)
  then have "round_positive p x = of_int (m * 2 ^ j) * U"
    by (simp only: round_positive_ulp U_def)
  then show ?thesis using xU by simp
qed

lemma fixed_on_grid:
  assumes "round_positive p t = t"
  shows "t = of_int (round_half_even (t / ulp p t)) * ulp p t"
  using assms by (simp add: round_positive_ulp)

lemma round_positive_ge_fixed:
  assumes p: "1 \<le> p" and t: "0 < t" "round_positive p t = t" and le: "t \<le> x"
  shows "t \<le> round_positive p x"
proof (cases "t < 2 powi binade x")
  case True
  have "0 < x" using t le by simp
  then show ?thesis using round_positive_bounds(1)[OF _ p, of x] True by simp
next
  case False
  have xpos: "0 < x" using t le by simp
  have "t < 2 powi (binade x + 1)" using le binade_bounds(2)[OF xpos] by simp
  then have b: "binade t = binade x" using False t(1) by (intro binade_unique) auto
  then have u: "ulp p t = ulp p x" by (simp add: ulp_def)
  define n where "n = round_half_even (t / ulp p t)"
  have tn: "t = of_int n * ulp p x" using fixed_on_grid[OF t(2)] by (simp add: n_def u)
  have "of_int n \<le> x / ulp p x"
    using le ulp_pos[of p x] by (subst (asm) tn) (simp add: pos_le_divide_eq)
  then have "n \<le> \<lfloor>x / ulp p x\<rfloor>" by (simp add: le_floor_iff)
  then have "n \<le> round_half_even (x / ulp p x)"
    using round_half_even_ge_floor[of "x / ulp p x"] by linarith
  then have "real_of_int n \<le> of_int (round_half_even (x / ulp p x))"
    by (simp only: of_int_le_iff)
  then have "of_int n * ulp p x \<le> of_int (round_half_even (x / ulp p x)) * ulp p x"
    using ulp_pos[of p x] by (intro mult_right_mono) auto
  then show ?thesis unfolding round_positive_ulp[of p x] by (subst tn)
qed

lemma round_positive_le_fixed:
  assumes p: "1 \<le> p" and x: "0 < x" and t: "round_positive p t = t" and le: "x \<le> t"
  shows "round_positive p x \<le> t"
proof (cases "2 powi (binade x + 1) \<le> t")
  case True
  then show ?thesis using round_positive_bounds(2)[OF x p] by simp
next
  case False
  have tpos: "0 < t" using x le by simp
  have "2 powi binade x \<le> t" using le binade_bounds(1)[OF x] by simp
  then have b: "binade t = binade x" using False tpos by (intro binade_unique) auto
  then have u: "ulp p t = ulp p x" by (simp add: ulp_def)
  define n where "n = round_half_even (t / ulp p t)"
  have tn: "t = of_int n * ulp p x" using fixed_on_grid[OF t] by (simp add: n_def u)
  have "x / ulp p x \<le> of_int n"
    using le ulp_pos[of p x] by (subst (asm) tn) (simp add: pos_divide_le_eq)
  then have "\<lceil>x / ulp p x\<rceil> \<le> n" by (simp add: ceiling_le_iff)
  then have "round_half_even (x / ulp p x) \<le> n"
    using round_half_even_le_ceiling[of "x / ulp p x"] by linarith
  then have "real_of_int (round_half_even (x / ulp p x)) \<le> of_int n"
    by (simp only: of_int_le_iff)
  then have "of_int (round_half_even (x / ulp p x)) * ulp p x \<le> of_int n * ulp p x"
    using ulp_pos[of p x] by (intro mult_right_mono) auto
  then show ?thesis unfolding round_positive_ulp[of p x] by (subst tn)
qed

lemma round_to_zero [simp]: "round_to p 0 = 0"
  by (simp add: round_to_def)

lemma round_to_minus: "round_to p (- x) = - round_to p x"
  by (simp add: round_to_def)

lemma round_positive_pos: "0 < x \<Longrightarrow> 1 \<le> p \<Longrightarrow> 0 < round_positive p x"
  using round_positive_bounds(1)[of x p] zero_less_power_int[of "2::real" "binade x"]
  by linarith

lemma round_to_pos: "0 < x \<Longrightarrow> 1 \<le> p \<Longrightarrow> 0 < round_to p x"
  by (simp add: round_to_def round_positive_pos)

lemma round_to_neg: "x < 0 \<Longrightarrow> 1 \<le> p \<Longrightarrow> round_to p x < 0"
  using round_positive_pos[of "- x" p] by (simp add: round_to_def)

lemma round_to_nonneg: "0 \<le> x \<Longrightarrow> 1 \<le> p \<Longrightarrow> 0 \<le> round_to p x"
  using round_to_pos[of x p] by (cases "x = 0") auto

lemma round_to_error:
  assumes "1 \<le> p"
  shows "\<bar>round_to p x - x\<bar> \<le> \<bar>x\<bar> / 2 ^ p"
proof -
  consider "x = 0" | "0 < x" | "x < 0" by linarith
  then show ?thesis
  proof cases
    case 1
    then show ?thesis by simp
  next
    case 2
    then show ?thesis using round_positive_error[OF 2 assms] by (simp add: round_to_def)
  next
    case 3
    then have "0 < - x" by simp
    from round_positive_error[OF this assms] 3 show ?thesis
      by (simp add: round_to_def abs_if split: if_splits)
  qed
qed

lemma round_to_exact:
  assumes m: "\<bar>m\<bar> < 2 ^ p" and x: "x = of_int m * 2 powi k"
  shows "round_to p x = x"
proof -
  consider "m = 0" | "0 < m" | "m < 0" by linarith
  then show ?thesis
  proof cases
    case 1
    then show ?thesis by (simp add: x)
  next
    case 2
    then have "0 < x" by (simp add: x)
    moreover have "round_positive p x = x"
      using 2 m by (intro round_positive_exact[OF _ _ x]) auto
    ultimately show ?thesis by (simp add: round_to_def)
  next
    case 3
    then have neg: "x < 0" by (simp add: x mult_neg_pos)
    have "round_positive p (- x) = - x"
      using 3 m by (intro round_positive_exact[of "- m" p _ k]) (auto simp: x)
    then show ?thesis using neg by (simp add: round_to_def)
  qed
qed

lemma round_positive_idem:
  assumes x: "0 < x" and p: "1 \<le> p"
  shows "round_positive p (round_positive p x) = round_positive p x"
proof -
  define n where "n = round_half_even (x / ulp p x)"
  have n: "2 ^ (p - 1) \<le> n" "n \<le> 2 ^ p"
    using mantissa_bounds[OF x p] by (simp_all add: n_def)
  have npos: "0 < n"
  proof -
    have "(0::int) < 2 ^ (p - 1)" by simp
    with n(1) show ?thesis by linarith
  qed
  have r: "round_positive p x = of_int n * 2 powi (binade x - (int p - 1))"
    by (simp add: round_positive_ulp n_def ulp_def)
  show ?thesis
  proof (cases "n < 2 ^ p")
    case True
    show ?thesis by (rule round_positive_exact[OF npos True r])
  next
    case False
    then have "n = 2 ^ p" using n(2) by simp
    then have "round_positive p x = 2 ^ p * ulp p x"
      by (simp add: round_positive_ulp n_def)
    then have "round_positive p x = of_int 1 * 2 powi (binade x + 1)"
      by (simp add: ulp_binade_next)
    moreover have "(1::int) < 2 ^ p" using p one_less_power[of "2::int" p] by simp
    ultimately show ?thesis by (intro round_positive_exact[of 1 p _ "binade x + 1"]) auto
  qed
qed

lemma round_to_idem:
  assumes "1 \<le> p"
  shows "round_to p (round_to p x) = round_to p x"
proof -
  consider "x = 0" | "0 < x" | "x < 0" by linarith
  then show ?thesis
  proof cases
    case 1
    then show ?thesis by simp
  next
    case 2
    then show ?thesis
      using round_positive_idem[OF 2 assms] round_positive_pos[OF 2 assms]
      by (simp add: round_to_def)
  next
    case 3
    then have "0 < - x" by simp
    from round_positive_idem[OF this assms] round_positive_pos[OF this assms] 3
    show ?thesis by (simp add: round_to_def)
  qed
qed

lemma round_to_ge_fixed:
  assumes p: "1 \<le> p" and t: "round_to p t = t" and le: "t \<le> x"
  shows "t \<le> round_to p x"
proof -
  consider "0 < t" | "t = 0" | "t < 0" "0 \<le> x" | "t < 0" "x < 0" by linarith
  then show ?thesis
  proof cases
    case 1
    then have "round_positive p t = t" using t by (simp add: round_to_def)
    from round_positive_ge_fixed[OF p 1 this le] 1 le show ?thesis
      by (simp add: round_to_def)
  next
    case 2
    then show ?thesis using round_to_nonneg[OF _ p, of x] le by simp
  next
    case 3
    then show ?thesis using round_to_nonneg[OF _ p, of x] by linarith
  next
    case 4
    then have "round_positive p (- t) = - t" using t by (simp add: round_to_def)
    from round_positive_le_fixed[OF p _ this, of "- x"] 4 le
    have "round_positive p (- x) \<le> - t" by simp
    then show ?thesis using 4 by (simp add: round_to_def)
  qed
qed

section \<open>The flat index\<close>

lemma pair_less:
  fixes a b n m :: nat
  assumes "a < n" and "b < m"
  shows "a + n * b < n * m"
proof -
  have "a + n * b < n + n * b" using assms(1) by simp
  also have "\<dots> = n * Suc b" by simp
  also have "\<dots> \<le> n * m" using assms(2) by (intro mult_le_mono2) simp
  finally show ?thesis .
qed

lemma sampleIndex_nested:
  "sampleIndex m xi yi zi t =
     yi + vec_y (grid_size m) * (zi + vec_z (grid_size m) * (xi + vec_x (grid_size m) * t))"
  by (simp add: sampleIndex_def algebra_simps)

lemma index_tuple_sampleIndex:
  assumes "xi < vec_x (grid_size m)" "yi < vec_y (grid_size m)" "zi < vec_z (grid_size m)"
  shows "index_tuple m (sampleIndex m xi yi zi t) = (xi, yi, zi, t)"
  using assms by (simp add: index_tuple_def sampleIndex_nested Let_def)

lemma sampleIndex_index_tuple:
  "(case index_tuple m i of (xi, yi, zi, t) \<Rightarrow> sampleIndex m xi yi zi t) = i"
  by (simp add: index_tuple_def sampleIndex_nested Let_def)

lemma sampleIndex_less:
  assumes "xi < vec_x (grid_size m)" "yi < vec_y (grid_size m)" "zi < vec_z (grid_size m)"
    and "t < time_count m"
  shows "sampleIndex m xi yi zi t
    < vec_x (grid_size m) * vec_y (grid_size m) * vec_z (grid_size m) * time_count m"
proof -
  have "xi + vec_x (grid_size m) * t < vec_x (grid_size m) * time_count m"
    using assms by (intro pair_less)
  then have "zi + vec_z (grid_size m) * (xi + vec_x (grid_size m) * t)
      < vec_z (grid_size m) * (vec_x (grid_size m) * time_count m)"
    using assms by (intro pair_less)
  then have "yi + vec_y (grid_size m) * (zi + vec_z (grid_size m) * (xi + vec_x (grid_size m) * t))
      < vec_y (grid_size m) * (vec_z (grid_size m) * (vec_x (grid_size m) * time_count m))"
    using assms by (intro pair_less)
  then show ?thesis by (simp add: sampleIndex_nested mult_ac)
qed

lemma index_tuple_in_range:
  assumes pos: "0 < vec_x (grid_size m)" "0 < vec_y (grid_size m)" "0 < vec_z (grid_size m)"
    and i: "i < vec_x (grid_size m) * vec_y (grid_size m) * vec_z (grid_size m) * time_count m"
  shows "index_tuple m i \<in>
    {..<vec_x (grid_size m)} \<times> {..<vec_y (grid_size m)} \<times> {..<vec_z (grid_size m)} \<times> {..<time_count m}"
proof -
  have "i < vec_y (grid_size m) * (vec_z (grid_size m) * (vec_x (grid_size m) * time_count m))"
    using i by (simp add: mult_ac)
  then have "i div vec_y (grid_size m) div vec_z (grid_size m) div vec_x (grid_size m) < time_count m"
    using pos by (simp add: less_mult_imp_div_less mult.commute)
  then show ?thesis using pos by (simp add: index_tuple_def Let_def)
qed

text \<open>
  Claim C1. For every grid with positive dimensions and every positive time count, the
  index expression of the sampling function is a bijection from the index tuples
  \<open>[0,gx) \<times> [0,gy) \<times> [0,gz) \<times> [0,tc)\<close> onto the flat indices \<open>[0, gx*gy*gz*tc)\<close>: two
  distinct tuples have distinct flat indices, and every flat index of the range is the
  image of a tuple.
\<close>

theorem sampleIndex_bijection:
  assumes "0 < vec_x (grid_size m)" and "0 < vec_y (grid_size m)" and "0 < vec_z (grid_size m)"
    and "0 < time_count m"
  shows "bij_betw (\<lambda>(xi, yi, zi, t). sampleIndex m xi yi zi t)
    ({..<vec_x (grid_size m)} \<times> {..<vec_y (grid_size m)} \<times> {..<vec_z (grid_size m)} \<times> {..<time_count m})
    {..<vec_x (grid_size m) * vec_y (grid_size m) * vec_z (grid_size m) * time_count m}"
proof (rule bij_betw_byWitness[where f' = "index_tuple m"])
  show "\<forall>a\<in>{..<vec_x (grid_size m)} \<times> {..<vec_y (grid_size m)} \<times> {..<vec_z (grid_size m)} \<times> {..<time_count m}.
      index_tuple m (case a of (xi, yi, zi, t) \<Rightarrow> sampleIndex m xi yi zi t) = a"
    by (auto simp: index_tuple_sampleIndex)
  show "\<forall>a'\<in>{..<vec_x (grid_size m) * vec_y (grid_size m) * vec_z (grid_size m) * time_count m}.
      (case index_tuple m a' of (xi, yi, zi, t) \<Rightarrow> sampleIndex m xi yi zi t) = a'"
    by (simp add: sampleIndex_index_tuple)
  show "(\<lambda>(xi, yi, zi, t). sampleIndex m xi yi zi t) `
      ({..<vec_x (grid_size m)} \<times> {..<vec_y (grid_size m)} \<times> {..<vec_z (grid_size m)} \<times> {..<time_count m})
      \<subseteq> {..<vec_x (grid_size m) * vec_y (grid_size m) * vec_z (grid_size m) * time_count m}"
    by (auto simp: sampleIndex_less)
  show "index_tuple m `
      {..<vec_x (grid_size m) * vec_y (grid_size m) * vec_z (grid_size m) * time_count m}
      \<subseteq> {..<vec_x (grid_size m)} \<times> {..<vec_y (grid_size m)} \<times> {..<vec_z (grid_size m)} \<times> {..<time_count m}"
    using index_tuple_in_range[OF assms(1-3)] by blast
qed

text \<open>The grid of the soot visibility data: 50 x 50 x 50 voxels, 151 time samples.\<close>

theorem sampleIndex_bijection_witness:
  "0 < vec_x (grid_size sootVisibilityMeta) \<and> 0 < vec_y (grid_size sootVisibilityMeta) \<and>
   0 < vec_z (grid_size sootVisibilityMeta) \<and> 0 < time_count sootVisibilityMeta \<and>
   bij_betw (\<lambda>(xi, yi, zi, t). sampleIndex sootVisibilityMeta xi yi zi t)
     ({..<50} \<times> {..<50} \<times> {..<50} \<times> {..<151}) {..<18875000}"
  using sampleIndex_bijection[of sootVisibilityMeta] by (simp add: sootVisibilityMeta_def)

section \<open>Facts about \<open>binary64\<close>\<close>

text \<open>
  Three well-known values, computed by the definitions: the binary64 number \<open>0.1\<close>, the
  sum \<open>0.1 + 0.2\<close>, which is \<open>0.30000000000000004\<close> and not the number \<open>0.3\<close>, and the
  binary32 number \<open>0.1\<close>.
\<close>

lemma literal_tenth: "binary64 (1 / 10) = 3602879701896397 / 36028797018963968"
  by code_simp

lemma tenth_plus_fifth:
  "js_add (binary64 (1 / 10)) (binary64 (2 / 10)) = 1351079888211149 / 4503599627370496"
  "binary64 (3 / 10) = 5404319552844595 / 18014398509481984"
  by code_simp+

lemma fround_tenth: "binary32 (1 / 10) = 13421773 / 134217728"
  by code_simp

lemma binary64_idem: "binary64 (binary64 x) = binary64 x"
  by (simp add: binary64_def round_to_idem)

lemma binary64_nonneg: "0 \<le> x \<Longrightarrow> 0 \<le> binary64 x"
  by (simp add: binary64_def round_to_nonneg)

lemma binary64_ge_fixed: "binary64 t = t \<Longrightarrow> t \<le> x \<Longrightarrow> t \<le> binary64 x"
  unfolding binary64_def by (rule round_to_ge_fixed) simp_all

lemma binary64_error: "\<bar>binary64 x - x\<bar> \<le> \<bar>x\<bar> / 2 ^ 53"
  unfolding binary64_def by (rule round_to_error) simp

lemma binary64_pos: "0 < x \<Longrightarrow> 0 < binary64 x"
  by (simp add: binary64_def round_to_pos)

lemma literal_1e6: "binary64 (1 / 10 ^ 6) = 4722366482869645 / 4722366482869645213696"
  by code_simp

lemma literal_1e6_range: "0 < binary64 (1 / 10 ^ 6)" "binary64 (1 / 10 ^ 6) \<le> 1"
  unfolding literal_1e6 by simp_all

section \<open>The frame loop: delta time and simulation time\<close>

lemma clamp_min_max: "lo \<le> hi \<Longrightarrow> clamp v lo hi = min hi (max lo v)"
  by (auto simp: clamp_def min_def max_def)

lemma deltaTime_is_clamp:
  "deltaTime lastT time =
     clamp (case lastT of None \<Rightarrow> 0 | Some l \<Rightarrow> js_div (js_sub time l) 1000)
       (binary64 (1 / 10 ^ 6)) 1"
  unfolding deltaTime_def by (rule clamp_min_max[OF literal_1e6_range(2), symmetric])

lemma deltaTime_bounds: "binary64 (1 / 10 ^ 6) \<le> deltaTime lastT time" "deltaTime lastT time \<le> 1"
  using literal_1e6_range by (auto simp: deltaTime_def min_def max_def)

text \<open>
  Claim C3 says that the delta time is \<open>0\<close> in the first frame. It is not: the lower bound of
  the clamp applies, at any timestamp.
\<close>

theorem first_frame_deltaTime_not_zero: "deltaTime None 0 \<noteq> 0"
  using literal_1e6_range by (simp add: deltaTime_def min_def max_def)

lemma dt_250: "deltaTime (Some 1000) 1250 = 1 / 4"
  by code_simp

lemma dt_5000: "deltaTime (Some 0) 5000 = 1"
  by code_simp

text \<open>
  Claim C3, amended. The delta time is \<open>1e-6\<close> seconds in the first frame, when there is no
  previous timestamp; it is \<open>0.25\<close> seconds for \<open>last = 1000 ms\<close> and \<open>now = 1250 ms\<close>; and it is
  clamped to \<open>1\<close> second for \<open>last = 0 ms\<close> and \<open>now = 5000 ms\<close>.
\<close>

theorem deltaTime_scenarios:
  "deltaTime None time = binary64 (1 / 10 ^ 6) \<and>
   deltaTime (Some 1000) 1250 = 1 / 4 \<and>
   deltaTime (Some 0) 5000 = 1"
  using literal_1e6_range dt_250 dt_5000 by (simp add: deltaTime_def min_def max_def)

lemma update_advances_time:
  "uniforms (fst (update time rnd s)) U_time =
     js_add (uniforms s U_time) (js_mul (deltaTime (lastTime s) time) (timescale s))"
  by (simp add: update_def Let_def)

lemma update_time_inv:
  assumes "time_inv s"
  shows "time_inv (fst (update time rnd s))"
    and "uniforms s U_time \<le> uniforms (fst (update time rnd s)) U_time"
proof -
  let ?dt = "deltaTime (lastTime s) time"
  have t: "uniforms (fst (update time rnd s)) U_time =
      binary64 (uniforms s U_time + binary64 (?dt * timescale s))"
    by (simp add: update_def Let_def js_add_def js_mul_def)
  have ts: "timescale (fst (update time rnd s)) = timescale s"
    by (simp add: update_def Let_def)
  show "time_inv (fst (update time rnd s))"
    using assms by (simp add: time_inv_def t ts binary64_idem)
  have "0 \<le> ?dt" using deltaTime_bounds(1)[of "lastTime s" time] literal_1e6_range(1) by linarith
  then have "0 \<le> ?dt * timescale s" using assms by (simp add: time_inv_def)
  then have "0 \<le> binary64 (?dt * timescale s)" by (rule binary64_nonneg)
  then have "uniforms s U_time \<le> uniforms s U_time + binary64 (?dt * timescale s)" by simp
  then show "uniforms s U_time \<le> uniforms (fst (update time rnd s)) U_time"
    unfolding t using assms by (intro binary64_ge_fixed) (simp_all add: time_inv_def)
qed

lemma uniform_range_time: "uniform_range u = Some r \<Longrightarrow> u \<noteq> U_time"
  by (cases u) simp_all

lemma handle_time_inv:
  assumes "time_inv s" and "gui_ok e"
  shows "time_inv (fst (handle e s)) \<and> uniforms s U_time \<le> uniforms (fst (handle e s)) U_time"
proof (cases e)
  case (Frame time rnd)
  then show ?thesis using update_time_inv[OF assms(1)] by simp
next
  case (UniformValue u v)
  then have "u \<noteq> U_time" using assms(2) by (auto split: option.splits dest: uniform_range_time)
  then show ?thesis using assms(1) UniformValue by (simp add: on_uniform_def time_inv_def)
next
  case (TimeScale v)
  then show ?thesis using assms by (simp add: on_timescale_def time_inv_def)
qed (use assms(1) in \<open>simp_all add: time_inv_def on_functionPreset_def
      on_textarea_input_def on_useCustomFunction_def
      on_extinctionCoefficient_def on_distance_def on_useVolumetricDepthTest_def
      on_usePointLights_def on_flag_def on_raySteps_def Let_def\<close>)

lemma run_time_inv:
  assumes "time_inv s" and "list_all gui_ok es"
  shows "time_inv (run es s) \<and> uniforms s U_time \<le> uniforms (run es s) U_time"
  using assms
proof (induction es arbitrary: s)
  case Nil
  then show ?case by simp
next
  case (Cons e es)
  from Cons.prems have e: "gui_ok e" and es: "list_all gui_ok es" by simp_all
  from handle_time_inv[OF Cons.prems(1) e]
  have 1: "time_inv (fst (handle e s))"
    and 2: "uniforms s U_time \<le> uniforms (fst (handle e s)) U_time" by simp_all
  from Cons.IH[OF 1 es] 2 show ?case by auto
qed

lemma run_append: "run (es @ es') s = run es' (run es s)"
  by (induction es arbitrary: s) simp_all

text \<open>
  Claim C10. The time uniform never decreases: every delta time is at least \<open>1e-6\<close> and the
  time scale stays in the range \<open>[0, 8]\<close> of its controller, so every update adds an increment
  that is not negative, and the value after any further sequence of events is at least the
  value before. The initial value of the uniform is a JavaScript number.
\<close>

theorem time_never_decreases:
  assumes "list_all gui_ok es" and "list_all gui_ok es'"
    and "binary64 (u0 U_time) = u0 U_time"
  shows "uniforms (run es (initial_app u0)) U_time
    \<le> uniforms (run (es @ es') (initial_app u0)) U_time"
proof -
  have "time_inv (initial_app u0)" using assms(3) by (simp add: time_inv_def initial_app_def)
  then have "time_inv (run es (initial_app u0))" using run_time_inv assms(1) by blast
  then show ?thesis unfolding run_append using run_time_inv assms(2) by blast
qed

theorem time_never_decreases_witness:
  "list_all gui_ok [Frame 1000 (1 / 2)] \<and>
   list_all gui_ok [TimeScale 2, Frame 1250 (1 / 4)] \<and>
   binary64 (zero_uniforms U_time) = zero_uniforms U_time \<and>
   uniforms (run [Frame 1000 (1 / 2)] (initial_app zero_uniforms)) U_time
     \<le> uniforms (run ([Frame 1000 (1 / 2)] @ [TimeScale 2, Frame 1250 (1 / 4)])
          (initial_app zero_uniforms)) U_time"
proof -
  have h1: "list_all gui_ok [Frame 1000 (1 / 2)]" by simp
  have h2: "list_all gui_ok [TimeScale 2, Frame 1250 (1 / 4)]" by simp
  have h3: "binary64 (zero_uniforms U_time) = zero_uniforms U_time" by (simp add: binary64_def zero_uniforms_def)
  show ?thesis
    using h1 h2 h3 time_never_decreases[where ?u0.0 = zero_uniforms, OF h1 h2 h3] by blast
qed

section \<open>The delta time and the advance of time in a run\<close>

lemma run_lastTime:
  "lastTime (run es s) = (case last_frame es of None \<Rightarrow> lastTime s | Some t \<Rightarrow> Some t)"
proof (induction es arbitrary: s)
  case Nil
  then show ?case by simp
next
  case (Cons e es)
  show ?case
    by (cases e)
      (simp_all add: Cons.IH update_def on_timescale_def on_functionPreset_def
        on_textarea_input_def on_useCustomFunction_def on_uniform_def
        on_extinctionCoefficient_def on_distance_def on_useVolumetricDepthTest_def
        on_usePointLights_def on_flag_def on_raySteps_def Let_def split: option.splits)
qed

lemma update_calls_head: "take 1 (snd (update time rnd s)) = [ControlsUpdate (deltaTime (lastTime s) time)]"
  by (simp add: update_def Let_def)

lemma update_lastTime: "lastTime (fst (update time rnd s)) = Some time"
  by (simp add: update_def Let_def)

text \<open>
  Claim C2. In every frame of every run, the delta time that the update computes (it is
  passed to the orbit controls and multiplies the time scale) is \<open>clamp(v, 1e-6, 1)\<close>, that
  is \<open>min(1, max(1e-6, v))\<close>, where \<open>v\<close> is \<open>0\<close> when the run has had no frame before and
  \<open>(time - last) / 1000\<close> when \<open>last\<close> is the timestamp of the previous frame; and the frame
  leaves its own timestamp as the previous one for the next frame.
\<close>

theorem update_deltaTime_is_clamp:
  "take 1 (snd (update time rnd (run es (initial_app u0)))) =
     [ControlsUpdate
        (clamp (case last_frame es of None \<Rightarrow> 0 | Some l \<Rightarrow> js_div (js_sub time l) 1000)
           (binary64 (1 / 10 ^ 6)) 1)] \<and>
   uniforms (fst (update time rnd (run es (initial_app u0)))) U_time =
     js_add (uniforms (run es (initial_app u0)) U_time)
       (js_mul
          (clamp (case last_frame es of None \<Rightarrow> 0 | Some l \<Rightarrow> js_div (js_sub time l) 1000)
             (binary64 (1 / 10 ^ 6)) 1)
          (timescale (run es (initial_app u0)))) \<and>
   clamp (case last_frame es of None \<Rightarrow> 0 | Some l \<Rightarrow> js_div (js_sub time l) 1000)
       (binary64 (1 / 10 ^ 6)) 1
     = min 1 (max (binary64 (1 / 10 ^ 6))
         (case last_frame es of None \<Rightarrow> 0 | Some l \<Rightarrow> js_div (js_sub time l) 1000)) \<and>
   last_frame (es @ [Frame time rnd]) = Some time"
proof -
  have l: "lastTime (run es (initial_app u0)) = last_frame es"
    by (simp add: run_lastTime initial_app_def split: option.splits)
  have lf: "last_frame (es @ [Frame time rnd]) = Some time"
    by (induction es rule: last_frame.induct) simp_all
  show ?thesis
    unfolding update_calls_head update_advances_time l deltaTime_is_clamp
    using clamp_min_max[OF literal_1e6_range(2)] lf by simp
qed

text \<open>Two frames, at 1000 ms and at 1250 ms: the second has a delta time of a quarter second.\<close>

lemma two_frames_quarter_second:
  "take 1 (snd (update 1250 r2 (run [Frame 1000 r1] (initial_app u0)))) = [ControlsUpdate (1 / 4)]"
  unfolding update_calls_head by (simp add: update_lastTime dt_250)







section \<open>The extinction coefficient and the visible range\<close>

lemma round_trip_value:
  "extinctionCoefficient (options (coefficient_round_trip c s)) =
     js_div (binary64 (3912 / 1000)) (js_div (binary64 (3912 / 1000)) c)"
  "uniforms (coefficient_round_trip c s) U_extinctionCoefficient =
     js_div (binary64 (3912 / 1000)) (js_div (binary64 (3912 / 1000)) c)"
  by (simp_all add: coefficient_round_trip_def on_extinctionCoefficient_def on_distance_def Let_def)

lemma literal_041: "binary64 (41 / 100) = 7385903388887613 / 18014398509481984"
  by code_simp

lemma trip_041:
  "js_div (binary64 (3912 / 1000)) (js_div (binary64 (3912 / 1000)) (binary64 (41 / 100)))
    = 3692951694443807 / 9007199254740992"
  by code_simp

lemma division_round_trip:
  assumes K: "0 < K" and c: "0 < c"
  shows "\<bar>js_div K (js_div K c) - c\<bar> \<le> c * 3 / 2 ^ 53"
proof -
  define u :: real where "u = 1 / 2 ^ 53"
  have u: "0 < u" "u \<le> 1 / 3" by (simp_all add: u_def)
  define a where "a = K / c"
  define d where "d = binary64 a"
  define b where "b = K / d"
  define c' where "c' = binary64 b"
  have a: "0 < a" using K c by (simp add: a_def)
  have d: "0 < d" using a by (simp add: d_def binary64_pos)
  have b: "0 < b" using K d by (simp add: b_def)
  have da: "\<bar>d - a\<bar> \<le> a * u"
    using binary64_error[of a] a by (simp add: d_def u_def)
  have cb: "\<bar>c' - b\<bar> \<le> b * u"
    using binary64_error[of b] b by (simp add: c'_def u_def)
  have Kca: "K = c * a" using c by (simp add: a_def)
  have Kbd: "K = b * d" using d by (simp add: b_def)
  have "b - c = c * (a - d) / d"
    using d c by (simp add: b_def Kca field_simps)
  then have "\<bar>b - c\<bar> = c * \<bar>a - d\<bar> / d"
    using c d by (simp add: abs_mult)
  also have "\<dots> \<le> c * (a * u) / d"
    using da c d by (intro divide_right_mono mult_left_mono) auto
  also have "\<dots> = b * u"
    using d by (simp add: b_def Kca)
  finally have bc: "\<bar>b - c\<bar> \<le> b * u" .
  have "a * (1 - u) \<le> d" using da by (simp add: algebra_simps abs_le_iff)
  then have "b * (a * (1 - u)) \<le> b * d" using b by (intro mult_left_mono) auto
  then have "b * a * (1 - u) \<le> c * a" using Kbd Kca by (simp add: mult.assoc)
  then have "(b * (1 - u)) * a \<le> c * a" by (simp add: mult_ac)
  then have "b * (1 - u) \<le> c" using a by (simp only: mult_le_cancel_right_pos)
  then have bu: "b * u \<le> c * (3 / 2) * u"
  proof -
    assume h: "b * (1 - u) \<le> c"
    have "b * (2 / 3) \<le> b * (1 - u)" using u b by (intro mult_left_mono) auto
    with h have "b \<le> c * (3 / 2)" by simp
    then show ?thesis using u by (intro mult_right_mono) auto
  qed
  have "\<bar>c' - c\<bar> \<le> \<bar>c' - b\<bar> + \<bar>b - c\<bar>" by simp
  also have "\<dots> \<le> b * u + b * u" using cb bc by simp
  also have "\<dots> \<le> c * 3 * u" using bu by simp
  finally show ?thesis by (simp add: c'_def b_def d_def a_def js_div_def u_def)
qed

text \<open>
  Claim C5 says that the round trip reproduces the coefficient. In binary64 arithmetic it
  does not always: from the controller value \<open>0.41\<close> the round trip arrives one unit in the
  last place above it.
\<close>

theorem coefficient_round_trip_not_exact:
  "gui_ok (ExtinctionCoefficient (binary64 (41 / 100))) \<and>
   extinctionCoefficient (options (coefficient_round_trip (binary64 (41 / 100))
     (initial_app zero_uniforms))) \<noteq> binary64 (41 / 100)"
proof -
  have lo: "binary64 (1 / 10) \<le> binary64 (41 / 100)" by code_simp
  have hi: "binary64 (41 / 100) \<le> 10" unfolding literal_041 by simp
  have "extinctionCoefficient (options (coefficient_round_trip (binary64 (41 / 100))
      (initial_app zero_uniforms))) = 3692951694443807 / 9007199254740992"
    by (simp only: round_trip_value trip_041)
  moreover have "(3692951694443807 / 9007199254740992 :: real) \<noteq> binary64 (41 / 100)"
    unfolding literal_041 by simp
  ultimately show ?thesis using lo hi by simp
qed

text \<open>
  Claim C5, amended. For every coefficient \<open>c\<close> in the range \<open>[0.1, 10]\<close> of its controller,
  converting the coefficient to the visible range (\<open>3.912 / c\<close>) and the range back to the
  coefficient (\<open>3.912 / d\<close>), as the two linked handlers do, reproduces \<open>c\<close> up to rounding:
  the result differs from \<open>c\<close> by at most \<open>3 * 2^-53 * c\<close>, and the handler stores the same
  value in the uniform.
\<close>

theorem coefficient_round_trip_within_rounding:
  assumes "gui_ok (ExtinctionCoefficient c)"
  shows "\<bar>extinctionCoefficient (options (coefficient_round_trip c s)) - c\<bar> \<le> c * 3 / 2 ^ 53 \<and>
    uniforms (coefficient_round_trip c s) U_extinctionCoefficient
      = extinctionCoefficient (options (coefficient_round_trip c s))"
proof -
  have "0 < binary64 (1 / 10)" by (rule binary64_pos) simp
  then have c: "0 < c" using assms by simp
  have K: "0 < binary64 (3912 / 1000)" by (rule binary64_pos) simp
  show ?thesis
    unfolding round_trip_value using division_round_trip[OF K c] by simp
qed

theorem coefficient_round_trip_within_rounding_witness:
  "gui_ok (ExtinctionCoefficient 2) \<and>
   \<bar>extinctionCoefficient (options (coefficient_round_trip 2 (initial_app zero_uniforms))) - 2\<bar>
     \<le> 2 * 3 / 2 ^ 53"
proof -
  have "binary64 (1 / 10) \<le> 2" by code_simp
  then have h: "gui_ok (ExtinctionCoefficient 2)" by simp
  show ?thesis
    using h coefficient_round_trip_within_rounding[OF h, of "initial_app zero_uniforms"] by blast
qed

section \<open>Start-up, the depth pre-pass and the custom function\<close>

lemma empty_data_throws:
  "App_init u0 (Decompressed []) =
     ([CreateAtlasTexture (grid_size sootVisibilityMeta) (grid_offset sootVisibilityMeta)
         (voxel_size sootVisibilityMeta) (time_count sootVisibilityMeta)], Inl TypeError)"
  by (simp add: App_init_def App_new_def visibilityData_of_def scaleBytes_def reduce_max_def)

text \<open>
  Claim C6. When the input data is missing (the pipeline rejects and \<^verbatim>\<open>visibilityData\<close>
  stays \<^verbatim>\<open>null\<close>), the application still starts: the constructor is called in every
  case, without data it calls neither \<^verbatim>\<open>createAtlasTexture\<close> nor
  \<^verbatim>\<open>updateAtlasTexture\<close>, it ends without an exception and has installed the animation
  loop, and a frame of the application it built renders to the screen.
\<close>

theorem missing_data_still_starts:
  "visibilityData_of Rejected = None \<and>
   App_init u0 r = App_new u0 (visibilityData_of r) \<and>
   App_init u0 Rejected = ([SetAnimationLoop], Inr (initial_app u0)) \<and>
   \<not> list_ex is_atlas_call (fst (App_init u0 Rejected)) \<and>
   SetAnimationLoop \<in> set (fst (App_init u0 Rejected)) \<and>
   render_targets (currentRenderTarget (initial_app u0))
     (snd (update time rnd (initial_app u0))) = [Screen]"
  by (simp add: App_init_def App_new_def visibilityData_of_def update_def initial_app_def Let_def)

lemma set_flag_depth [simp]:
  "useVolumetricDepthTest (set_flag f v opts) = useVolumetricDepthTest opts"
  by (cases f) simp_all

lemma set_flag_custom [simp]:
  "useCustomFunction (set_flag f v opts) = useCustomFunction opts"
  "customFunction (set_flag f v opts) = customFunction opts"
  by (cases f; simp)+

lemma handle_depth_inv: "depth_inv s \<Longrightarrow> depth_inv (fst (handle e s))"
  by (cases e)
    (simp_all add: depth_inv_def update_def on_timescale_def on_functionPreset_def
      on_textarea_input_def on_useCustomFunction_def on_uniform_def
      on_extinctionCoefficient_def on_distance_def on_useVolumetricDepthTest_def
      on_usePointLights_def on_flag_def on_raySteps_def Let_def)

lemma run_depth_inv: "depth_inv s \<Longrightarrow> depth_inv (run es s)"
  by (induction es arbitrary: s) (simp_all add: handle_depth_inv)

lemma initial_depth_inv: "depth_inv (initial_app u0)"
  by (simp add: depth_inv_def initial_app_def initial_options_def)

text \<open>
  Claim C7. In every frame of a run in which the depth test is enabled (its toggle has made
  the spinning cube visible), the update renders into the depth render target and after
  that into the default framebuffer; when the depth test is disabled, the update renders
  into the default framebuffer only.
\<close>

theorem depth_prepass_precedes_final_render:
  "render_targets (currentRenderTarget (run es (initial_app u0)))
     (snd (update time rnd (run es (initial_app u0)))) =
   (if useVolumetricDepthTest (options (run es (initial_app u0)))
    then [DepthTarget, Screen] else [Screen])"
proof -
  have "depth_inv (run es (initial_app u0))"
    by (rule run_depth_inv[OF initial_depth_inv])
  then show ?thesis
    by (simp add: depth_inv_def update_def Let_def)
qed

lemma handle_custom_inv: "custom_inv (options s) \<Longrightarrow> custom_inv (options (fst (handle e s)))"
  by (cases e)
    (simp_all add: custom_inv_def update_def on_timescale_def on_functionPreset_def
      on_textarea_input_def on_useCustomFunction_def on_uniform_def
      on_extinctionCoefficient_def on_distance_def on_useVolumetricDepthTest_def
      on_usePointLights_def on_flag_def on_raySteps_def Let_def)

lemma run_custom_inv: "custom_inv (options s) \<Longrightarrow> custom_inv (options (run es s))"
  by (induction es arbitrary: s) (simp_all add: handle_custom_inv)

text \<open>
  Claim C9. \<^verbatim>\<open>options.useCustomFunction\<close> is true exactly when
  \<^verbatim>\<open>options.customFunction\<close> is not \<^verbatim>\<open>null\<close>: this holds for the initial options, every
  handler preserves it (the preset selection, the edit of the text area and the toggle in
  both directions among them), and so it holds after every run.
\<close>

theorem custom_function_invariant:
  "custom_inv initial_options \<and>
   (custom_inv (options s) \<longrightarrow> custom_inv (options (fst (handle e s)))) \<and>
   custom_inv (options (run es (initial_app u0)))"
proof (intro conjI impI)
  show init: "custom_inv initial_options"
    by (simp add: custom_inv_def initial_options_def)
  show "custom_inv (options (fst (handle e s)))" if "custom_inv (options s)"
    using that by (rule handle_custom_inv)
  show "custom_inv (options (run es (initial_app u0)))"
    by (rule run_custom_inv) (simp add: initial_app_def init)
qed

theorem custom_function_invariant_witness:
  "custom_inv (options (initial_app zero_uniforms)) \<and>
   custom_inv (options (fst (handle (TextareaInput ''return 1.0;'') (initial_app zero_uniforms)))) \<and>
   custom_inv (options (fst (handle (UseCustomFunction True) (initial_app zero_uniforms))))"
proof -
  have h: "custom_inv (options (initial_app zero_uniforms))"
    using custom_function_invariant[of "initial_app zero_uniforms" "TextareaInput []" "[]" zero_uniforms]
    by simp
  show ?thesis
    using h
      custom_function_invariant[of "initial_app zero_uniforms" "TextareaInput ''return 1.0;''"]
      custom_function_invariant[of "initial_app zero_uniforms" "UseCustomFunction True"]
    by blast
qed

section \<open>The scaled data and the address of a sample\<close>

lemma value_scale_eighth: "value_scale sootVisibilityMeta = 1 / 8"
proof -
  have "round_to 53 (1 / 8) = 1 / 8"
    by (rule round_to_exact[of 1 53 _ "- 3"]) (simp_all add: power_int_minus)
  then show ?thesis by (simp add: sootVisibilityMeta_def js_div_def binary64_def)
qed

lemma byte_eighth_exact:
  fixes v :: "8 word"
  assumes "8 \<le> p"
  shows "round_to p (real (unat v) / 8) = real (unat v) / 8"
proof (rule round_to_exact[of "int (unat v)" p _ "- 3"])
  have "unat v < 2 ^ 8" using unsigned_less[of v] by simp
  also have "(2::nat) ^ 8 \<le> 2 ^ p" using assms by (intro power_increasing) auto
  finally have "int (unat v) < 2 ^ p"
    by (metis of_nat_less_iff of_nat_numeral of_nat_power)
  then show "\<bar>int (unat v)\<bar> < 2 ^ p" by simp
  show "real (unat v) / 8 = real_of_int (int (unat v)) * 2 powi - 3"
    by (simp add: power_int_minus)
qed

lemma scaled_byte:
  "binary32 (js_mul (real (unat (v :: 8 word))) (value_scale sootVisibilityMeta))
     = real (unat v) * value_scale sootVisibilityMeta"
proof -
  have h: "real (unat v) * (1 / 8) = real (unat v) / 8" by simp
  have e53: "round_to 53 (real (unat v) / 8) = real (unat v) / 8"
    by (rule byte_eighth_exact) simp
  have e24: "round_to 24 (real (unat v) / 8) = real (unat v) / 8"
    by (rule byte_eighth_exact) simp
  show ?thesis
    unfolding value_scale_eighth js_mul_def binary64_def binary32_def
    by (simp only: h e53 e24)
qed

lemma sampleIndex_flat_index:
  "sampleIndex m xi yi zi t =
     flat_index (vec_x (grid_size m)) (vec_y (grid_size m)) (vec_z (grid_size m)) (xi, yi, zi, t)"
  by (simp add: sampleIndex_def flat_index_def)

text \<open>
  Claim C8. The value scale of the metadata is applied to every raw byte before the data
  reaches the sampling function: the array handed to the constructor holds, at every
  index, the byte times the value scale (exactly; neither the multiplication nor the store
  into the \<^verbatim>\<open>Float32Array\<close> rounds), and it is this array that the sampling function
  passed to \<^verbatim>\<open>updateAtlasTexture\<close> reads. The sampling function reads the array at the
  flat index \<open>y + z*gridSize.y + x*gridSize.y*gridSize.z + t*gridSize.x*gridSize.y*gridSize.z\<close>
  of the index tuple it receives.
\<close>

theorem scaled_data_and_sample_address:
  "visibilityData_of (Decompressed bytes) = Some (scaleBytes sootVisibilityMeta bytes) \<and>
   length (scaleBytes sootVisibilityMeta bytes) = length bytes \<and>
   (\<forall>i<length bytes.
      scaleBytes sootVisibilityMeta bytes ! i
        = real (unat (bytes ! i)) * value_scale sootVisibilityMeta) \<and>
   (reduce_max (scaleBytes sootVisibilityMeta bytes) = Inr mx \<longrightarrow>
      fst (App_init u0 (Decompressed bytes)) =
        [CreateAtlasTexture (grid_size sootVisibilityMeta) (grid_offset sootVisibilityMeta)
           (voxel_size sootVisibilityMeta) (time_count sootVisibilityMeta),
         UpdateAtlasTexture (sampleFn (scaleBytes sootVisibilityMeta bytes) mx),
         SetAnimationLoop]) \<and>
   sampleFn vd mx xi yi zi x y z t =
     sample_add
       (sample_div
          (array_get vd
             (flat_index (vec_x (grid_size sootVisibilityMeta)) (vec_y (grid_size sootVisibilityMeta))
                (vec_z (grid_size sootVisibilityMeta)) (xi, yi, zi, t)))
          mx)
       (binary64 (3 / 10))"
proof (intro conjI allI impI)
  show "visibilityData_of (Decompressed bytes) = Some (scaleBytes sootVisibilityMeta bytes)"
    by (simp add: visibilityData_of_def)
  show "length (scaleBytes sootVisibilityMeta bytes) = length bytes"
    by (simp add: scaleBytes_def)
  show "scaleBytes sootVisibilityMeta bytes ! i
      = real (unat (bytes ! i)) * value_scale sootVisibilityMeta" if "i < length bytes" for i
    using that unfolding scaleBytes_def by (simp only: nth_map scaled_byte)
  show "fst (App_init u0 (Decompressed bytes)) =
        [CreateAtlasTexture (grid_size sootVisibilityMeta) (grid_offset sootVisibilityMeta)
           (voxel_size sootVisibilityMeta) (time_count sootVisibilityMeta),
         UpdateAtlasTexture (sampleFn (scaleBytes sootVisibilityMeta bytes) mx),
         SetAnimationLoop]"
    if "reduce_max (scaleBytes sootVisibilityMeta bytes) = Inr mx"
    using that by (simp add: App_init_def App_new_def visibilityData_of_def Let_def)
  show "sampleFn vd mx xi yi zi x y z t =
     sample_add
       (sample_div
          (array_get vd
             (flat_index (vec_x (grid_size sootVisibilityMeta)) (vec_y (grid_size sootVisibilityMeta))
                (vec_z (grid_size sootVisibilityMeta)) (xi, yi, zi, t)))
          mx)
       (binary64 (3 / 10))"
    by (simp add: sampleFn_def Let_def sampleIndex_flat_index)
qed

text \<open>Two bytes, \<open>0x10\<close> and \<open>0xFF\<close>: the delivered values are \<open>2\<close> and \<open>31.875\<close>.\<close>

theorem scaled_data_and_sample_address_witness:
  "(1::nat) < length [16, 255 :: 8 word] \<and>
   scaleBytes sootVisibilityMeta [16, 255] ! 1
     = real (unat (255 :: 8 word)) * value_scale sootVisibilityMeta \<and>
   reduce_max (scaleBytes sootVisibilityMeta [16, 255]) = Inr (255 / 8) \<and>
   fst (App_init zero_uniforms (Decompressed [16, 255])) =
     [CreateAtlasTexture (grid_size sootVisibilityMeta) (grid_offset sootVisibilityMeta)
        (voxel_size sootVisibilityMeta) (time_count sootVisibilityMeta),
      UpdateAtlasTexture (sampleFn (scaleBytes sootVisibilityMeta [16, 255]) (255 / 8)),
      SetAnimationLoop]"
proof -
  note T = scaled_data_and_sample_address[of "[16, 255]" "255 / 8" zero_uniforms]
  have len: "(1::nat) < length [16, 255 :: 8 word]" by simp
  have e1: "scaleBytes sootVisibilityMeta [16, 255] ! 1
      = real (unat (255 :: 8 word)) * value_scale sootVisibilityMeta"
    using T[THEN conjunct2, THEN conjunct2, THEN conjunct1, rule_format, of 1] by simp
  have "scaleBytes sootVisibilityMeta [16, 255] =
      [real (unat (16 :: 8 word)) * value_scale sootVisibilityMeta,
       real (unat (255 :: 8 word)) * value_scale sootVisibilityMeta]"
    by (simp only: scaleBytes_def list.map scaled_byte)
  also have "\<dots> = [2, 255 / 8]"
    by (simp add: value_scale_eighth)
  finally have rm: "reduce_max (scaleBytes sootVisibilityMeta [16, 255]) = Inr (255 / 8)"
    by (simp add: reduce_max_def)
  note tr = T[THEN conjunct2, THEN conjunct2, THEN conjunct2, THEN conjunct1, rule_format, OF rm]
  show ?thesis using len e1 rm tr by blast
qed

end
